theory Spec2Isabelle
  imports Complex_Main "HOL-Library.Sublist"
begin

section \<open>Strings\<close>

text \<open>
  Python strings are modelled as lists of characters. The case mappings and the character
  classes below are those of Python on the ASCII range (and, for white space, on the two
  Latin-1 code points 0x85 and 0xA0 as well); characters outside it are left unchanged by
  \<open>upper\<close> and \<open>lower\<close>.
\<close>

definition is_ascii_lower :: "char \<Rightarrow> bool" where
  "is_ascii_lower c = (97 \<le> (of_char c :: nat) \<and> (of_char c :: nat) \<le> 122)"

definition is_ascii_upper :: "char \<Rightarrow> bool" where
  "is_ascii_upper c = (65 \<le> (of_char c :: nat) \<and> (of_char c :: nat) \<le> 90)"

definition to_upper :: "char \<Rightarrow> char" where
  "to_upper c = (if is_ascii_lower c then char_of ((of_char c :: nat) - 32) else c)"

definition to_lower :: "char \<Rightarrow> char" where
  "to_lower c = (if is_ascii_upper c then char_of ((of_char c :: nat) + 32) else c)"

text \<open>\<open>str.upper()\<close> and \<open>str.lower()\<close>.\<close>

definition upper :: "string \<Rightarrow> string" where
  "upper s = map to_upper s"

definition lower :: "string \<Rightarrow> string" where
  "lower s = map to_lower s"

text \<open>\<open>k in s\<close> for strings: \<open>k\<close> occurs in \<open>s\<close> as a contiguous substring.\<close>

definition str_in :: "string \<Rightarrow> string \<Rightarrow> bool" where
  "str_in k s = sublist k s"

section \<open>QueryValidator.get\_query\_complexity\_score\<close>

definition get_query_complexity_score :: "string \<Rightarrow> int" where
  "get_query_complexity_score sql_query =
     (let score = 1;
          sql_upper = upper sql_query;
          score = (if str_in ''JOIN'' sql_upper then score + 2 else score);
          score = (if str_in ''GROUP BY'' sql_upper then score + 1 else score);
          score = (if str_in ''HAVING'' sql_upper then score + 1 else score);
          score = (if str_in ''ORDER BY'' sql_upper then score + 1 else score);
          score = (if str_in ''LIMIT'' sql_upper then score + 1 else score);
          score = (if str_in ''WHERE'' sql_upper then score + 1 else score);
          score = (if str_in ''DISTINCT'' sql_upper then score + 1 else score);
          score = (if str_in ''UNION'' sql_upper then score + 2 else score);
          score = (if str_in ''SUBQUERY'' sql_upper \<or> str_in ''('' sql_upper
                   then score + 2 else score)
      in min score 10)"

text \<open>
  The nine structural indicators are the nine conditions tested by the function, in the
  order of the source; the last one fires on a parenthesis or on the word SUBQUERY.
\<close>

datatype indicator =
  JOIN | GROUP_BY | HAVING | ORDER_BY | LIMIT | WHERE | DISTINCT | UNION | SUBQUERY

fun fires :: "indicator \<Rightarrow> string \<Rightarrow> bool" where
  "fires JOIN sql_upper = str_in ''JOIN'' sql_upper"
| "fires GROUP_BY sql_upper = str_in ''GROUP BY'' sql_upper"
| "fires HAVING sql_upper = str_in ''HAVING'' sql_upper"
| "fires ORDER_BY sql_upper = str_in ''ORDER BY'' sql_upper"
| "fires LIMIT sql_upper = str_in ''LIMIT'' sql_upper"
| "fires WHERE sql_upper = str_in ''WHERE'' sql_upper"
| "fires DISTINCT sql_upper = str_in ''DISTINCT'' sql_upper"
| "fires UNION sql_upper = str_in ''UNION'' sql_upper"
| "fires SUBQUERY sql_upper = (str_in ''SUBQUERY'' sql_upper \<or> str_in ''('' sql_upper)"

fun weight :: "indicator \<Rightarrow> int" where
  "weight JOIN = 2"
| "weight GROUP_BY = 1"
| "weight HAVING = 1"
| "weight ORDER_BY = 1"
| "weight LIMIT = 1"
| "weight WHERE = 1"
| "weight DISTINCT = 1"
| "weight UNION = 2"
| "weight SUBQUERY = 2"

definition all_indicators :: "indicator list" where
  "all_indicators = [JOIN, GROUP_BY, HAVING, ORDER_BY, LIMIT, WHERE, DISTINCT, UNION, SUBQUERY]"

definition triggered :: "string \<Rightarrow> indicator set" where
  "triggered sql_query = set (filter (\<lambda>i. fires i (upper sql_query)) all_indicators)"

text \<open>
  The indicators as the specification words them: the ninth one is a parenthesis, and
  nothing else.
\<close>

fun spec_fires :: "indicator \<Rightarrow> string \<Rightarrow> bool" where
  "spec_fires SUBQUERY sql_upper = (str_in ''('' sql_upper \<or> str_in '')'' sql_upper)"
| "spec_fires i sql_upper = fires i sql_upper"

definition spec_triggered :: "string \<Rightarrow> indicator set" where
  "spec_triggered sql_query =
     set (filter (\<lambda>i. spec_fires i (upper sql_query)) all_indicators)"

section \<open>FewShotLearning.validate\_example\<close>

definition validate_example :: "string \<Rightarrow> string \<Rightarrow> bool" where
  "validate_example natural_language sql =
     (if natural_language = [] \<or> sql = [] then False
      else let sql_upper = upper sql in
        if \<not> list_ex (\<lambda>keyword. str_in keyword sql_upper) [''SELECT'', ''FROM''] then False
        else True)"

section \<open>Character classes, counting and regular expressions\<close>

text \<open>
  White space as \<open>str.isspace\<close>, \<open>str.strip\<close>, \<open>str.split\<close> and the class
  \<open>\s\<close> of the module \<open>re\<close> see it: tab, line feed, vertical tab, form feed,
  carriage return, the four separators 0x1C to 0x1F, the space, and 0x85 and 0xA0.
\<close>

definition is_space :: "char \<Rightarrow> bool" where
  "is_space c = ((of_char c :: nat) \<in> {9, 10, 11, 12, 13, 28, 29, 30, 31, 32, 133, 160})"

definition is_digit :: "char \<Rightarrow> bool" where
  "is_digit c = (48 \<le> (of_char c :: nat) \<and> (of_char c :: nat) \<le> 57)"

text \<open>The class \<open>\w\<close>: letters, digits and the underscore.\<close>

definition is_word :: "char \<Rightarrow> bool" where
  "is_word c = (is_ascii_lower c \<or> is_ascii_upper c \<or> is_digit c \<or> (of_char c :: nat) = 95)"

text \<open>
  \<open>s.count(sub)\<close>: the number of non-overlapping occurrences of \<open>sub\<close> in \<open>s\<close>, found
  from left to right (an empty \<open>sub\<close> is found once between any two characters and at
  both ends).
\<close>

function str_count :: "string \<Rightarrow> string \<Rightarrow> nat" where
  "str_count sub [] = (if sub = [] then 1 else 0)"
| "str_count sub (c # cs) =
     (if sub = [] then Suc (str_count sub cs)
      else if prefix sub (c # cs) then Suc (str_count sub (drop (length sub) (c # cs)))
      else str_count sub cs)"
  by pat_completeness auto
termination
  by (relation "measure (\<lambda>(sub, s). length s)") (auto simp: Suc_le_eq)

text \<open>
  The forbidden patterns use four constructs only: a literal text, \<open>\s*\<close>, \<open>\s+\<close> and
  \<open>\w+\<close>. A pattern is the list of its constructs. \<open>match_here p s\<close> holds when some
  prefix of \<open>s\<close> matches the whole pattern; under \<open>re.IGNORECASE\<close> a literal matches a
  text that differs from it in letter case only. \<open>re_search p s\<close> is the truth value of
  \<open>re.search(p, s, re.IGNORECASE)\<close>: the pattern matches somewhere in \<open>s\<close>.
\<close>

datatype atom = Lit string | Spaces0 | Spaces1 | Words1

function match_here :: "atom list \<Rightarrow> string \<Rightarrow> bool" where
  "match_here [] s = True"
| "match_here (Lit l # p) s =
     (length l \<le> length s \<and> lower (take (length l) s) = lower l \<and>
      match_here p (drop (length l) s))"
| "match_here (Spaces0 # p) [] = match_here p []"
| "match_here (Spaces0 # p) (c # cs) =
     (match_here p (c # cs) \<or> (is_space c \<and> match_here (Spaces0 # p) cs))"
| "match_here (Spaces1 # p) [] = False"
| "match_here (Spaces1 # p) (c # cs) = (is_space c \<and> match_here (Spaces0 # p) cs)"
| "match_here (Words1 # p) [] = False"
| "match_here (Words1 # p) (c # cs) =
     (is_word c \<and> (match_here p cs \<or> match_here (Words1 # p) cs))"
  by pat_completeness auto
termination
  by (relation "measure (\<lambda>(p, s). length p + length s)") auto

fun re_search :: "atom list \<Rightarrow> string \<Rightarrow> bool" where
  "re_search p [] = match_here p []"
| "re_search p (c # cs) = (match_here p (c # cs) \<or> re_search p cs)"

text \<open>The source text of a pattern, as the error message prints it.\<close>

fun atom_source :: "atom \<Rightarrow> string" where
  "atom_source (Lit l) = l"
| "atom_source Spaces0 = [CHR 0x5C] @ ''s*''"
| "atom_source Spaces1 = [CHR 0x5C] @ ''s+''"
| "atom_source Words1 = [CHR 0x5C] @ ''w+''"

definition pattern_source :: "atom list \<Rightarrow> string" where
  "pattern_source p = concat (map atom_source p)"

section \<open>QueryValidator: configuration\<close>

text \<open>
  \<open>dangerous_keywords\<close> is a Python set; the loops over it run in an order that Python
  does not fix. The list below is in the order of the source text; no property proved here
  depends on the order.
\<close>

definition dangerous_keywords :: "string list" where
  "dangerous_keywords =
     [''DROP'', ''DELETE'', ''TRUNCATE'', ''ALTER'', ''CREATE'', ''INSERT'',
      ''UPDATE'', ''GRANT'', ''REVOKE'', ''EXECUTE'', ''EXEC'']"

definition read_only_keywords :: "string list" where
  "read_only_keywords = [''SELECT'', ''SHOW'', ''DESCRIBE'', ''EXPLAIN'', ''WITH'']"

definition forbidden_patterns :: "atom list list" where
  "forbidden_patterns =
     [[Lit ''DROP'', Spaces1, Lit ''TABLE''],
      [Lit ''DELETE'', Spaces1, Lit ''FROM'', Spaces1, Words1, Spaces1, Lit ''WHERE'',
       Spaces1, Lit ''1'', Spaces0, Lit ''='', Spaces0, Lit ''1''],
      [Lit ''TRUNCATE'', Spaces1, Lit ''TABLE''],
      [Lit ''ALTER'', Spaces1, Lit ''TABLE''],
      [Lit ''CREATE'', Spaces1, Lit ''TABLE''],
      [Lit ''INSERT'', Spaces1, Lit ''INTO''],
      [Lit ''UPDATE'', Spaces1, Words1, Spaces1, Lit ''SET''],
      [Lit '';'', Spaces0, Lit ''DROP''],
      [Lit '';'', Spaces0, Lit ''DELETE''],
      [Lit '';'', Spaces0, Lit ''TRUNCATE''],
      [Lit '';'', Spaces0, Lit ''ALTER''],
      [Lit '';'', Spaces0, Lit ''CREATE''],
      [Lit '';'', Spaces0, Lit ''INSERT''],
      [Lit '';'', Spaces0, Lit ''UPDATE'']]"

section \<open>QueryValidator: the parsed statement\<close>

text \<open>
  The parser is the library \<open>sqlparse\<close>, which is not part of the repository: it is a
  parameter of the model. A parser maps the query text to the list of its statements, or
  raises; \<open>Inl msg\<close> is an exception whose text is \<open>msg\<close>. A statement is the list of its
  tokens. A token is a leaf, with its token type, whether it is an instance of
  \<open>Identifier\<close>, and its text; or a group, which has the attribute \<open>tokens\<close>, with its
  text and its sub-tokens. Every token has the attribute \<open>value\<close>.
\<close>

datatype ttype = Keyword | Name | Punctuation | Whitespace | Other_ttype

datatype token =
  Leaf "ttype option" bool string
| Group string "token list"

fun token_value :: "token \<Rightarrow> string" where
  "token_value (Leaf ty ident v) = v"
| "token_value (Group v ts) = v"

type_synonym statement = "token list"

type_synonym parser = "string \<Rightarrow> string + statement list"

record column_ref =
  ref_table :: "string option"
  ref_column :: string

text \<open>\<open>\_is\_select\_statement\<close>: the first token decides; the loop is the fallback.\<close>

definition is_select_statement :: "statement \<Rightarrow> bool" where
  "is_select_statement tokens =
     (if tokens \<noteq> [] then upper (token_value (hd tokens)) = ''SELECT''
      else list_ex (\<lambda>token. upper (token_value token) = ''SELECT'') tokens)"

text \<open>
  \<open>\_extract\_tables\_and\_columns\<close>: the inner function walks the tokens in order and
  appends to the two lists. \<open>list(set(tables))\<close> removes the duplicates, in an order that
  Python does not fix; \<open>remdups\<close> stands for it.
\<close>

definition split_qualified :: "string \<Rightarrow> column_ref list" where
  "split_qualified v =
     (if CHR ''.'' \<in> set v then
        (if str_count ''.'' v = 1 then
           [\<lparr>ref_table = Some (takeWhile (\<lambda>c. c \<noteq> CHR ''.'') v),
             ref_column = tl (dropWhile (\<lambda>c. c \<noteq> CHR ''.'') v)\<rparr>]
         else [])
      else [\<lparr>ref_table = None, ref_column = v\<rparr>])"

fun extract_from_token :: "token \<Rightarrow> string list \<times> column_ref list \<Rightarrow> string list \<times> column_ref list" where
  "extract_from_token (Group v ts) acc = fold extract_from_token ts acc"
| "extract_from_token (Leaf ty ident v) acc =
     (if ty = Some Name then (fst acc @ [v], snd acc)
      else if ident then (fst acc, snd acc @ split_qualified v)
      else acc)"

definition extract_tables_and_columns :: "statement \<Rightarrow> string list \<times> column_ref list" where
  "extract_tables_and_columns tokens =
     (let acc = fold extract_from_token tokens ([], []) in (remdups (fst acc), snd acc))"

section \<open>QueryValidator: the phases\<close>

record phase_result =
  is_valid :: bool
  errors :: "string list"

record schema_result = phase_result +
  warnings :: "string list"

record validation_result = schema_result +
  suggestions :: "string list"
  query_type :: string
  tables_used :: "string list"
  columns_used :: "column_ref list"

record query_info =
  info_query_type :: string
  info_tables_used :: "string list"
  info_columns_used :: "column_ref list"

record performance_result =
  perf_warnings :: "string list"
  perf_suggestions :: "string list"

definition quoted :: "string \<Rightarrow> string" where
  "quoted s = [CHR 0x27] @ s @ [CHR 0x27]"

text \<open>\<open>\_validate\_syntax\<close>; an exception of the parser is caught and reported.\<close>

definition validate_syntax :: "parser \<Rightarrow> string \<Rightarrow> phase_result" where
  "validate_syntax parse sql_query =
     (let result = \<lparr>is_valid = True, errors = []\<rparr> in
      case parse sql_query of
        Inl e \<Rightarrow> result\<lparr>is_valid := False, errors := errors result @ [''Syntax error: '' @ e]\<rparr>
      | Inr parsed \<Rightarrow>
          if parsed = [] then
            result\<lparr>is_valid := False, errors := errors result @ [''Empty or invalid SQL query'']\<rparr>
          else if \<not> is_select_statement (hd parsed) then
            result\<lparr>is_valid := False,
                   errors := errors result @ [''Query must be a SELECT statement'']\<rparr>
          else result)"

text \<open>\<open>\_validate\_security\<close>: two loops and two tests, all of them accumulating.\<close>

fun check_keywords :: "string list \<Rightarrow> string \<Rightarrow> phase_result \<Rightarrow> phase_result" where
  "check_keywords [] sql_upper result = result"
| "check_keywords (keyword # keywords) sql_upper result =
     check_keywords keywords sql_upper
       (if str_in keyword sql_upper then
          result\<lparr>is_valid := False,
                 errors := errors result @
                   [''Dangerous keyword '' @ quoted keyword @ '' detected'']\<rparr>
        else result)"

fun check_patterns :: "atom list list \<Rightarrow> string \<Rightarrow> phase_result \<Rightarrow> phase_result" where
  "check_patterns [] sql_upper result = result"
| "check_patterns (pattern # patterns) sql_upper result =
     check_patterns patterns sql_upper
       (if re_search pattern sql_upper then
          result\<lparr>is_valid := False,
                 errors := errors result @
                   [''Forbidden pattern detected: '' @ pattern_source pattern]\<rparr>
        else result)"

definition validate_security :: "string \<Rightarrow> phase_result" where
  "validate_security sql_query =
     (let result = \<lparr>is_valid = True, errors = []\<rparr>;
          sql_upper = upper sql_query;
          result = check_keywords dangerous_keywords sql_upper result;
          result = check_patterns forbidden_patterns sql_upper result;
          result = (if str_count '';'' sql_query > 1 then
                      result\<lparr>is_valid := False,
                             errors := errors result @ [''Multiple SQL statements not allowed'']\<rparr>
                    else result);
          result = (if str_in ''--'' sql_query \<or> str_in ''/*'' sql_query then
                      result\<lparr>is_valid := False,
                             errors := errors result @
                               [''SQL comments not allowed for security reasons'']\<rparr>
                    else result)
      in result)"

text \<open>
  \<open>\_extract\_query\_info\<close>: an exception of the parser is caught and logged, and the
  initial result is returned.
\<close>

definition extract_query_info :: "parser \<Rightarrow> string \<Rightarrow> query_info" where
  "extract_query_info parse sql_query =
     (let result = \<lparr>info_query_type = ''unknown'', info_tables_used = [],
                     info_columns_used = []\<rparr> in
      case parse sql_query of
        Inl e \<Rightarrow> result
      | Inr parsed \<Rightarrow>
          if parsed = [] then result
          else
            let statement = hd parsed;
                result = (if is_select_statement statement
                          then result\<lparr>info_query_type := ''SELECT''\<rparr> else result);
                tc = extract_tables_and_columns statement
            in result\<lparr>info_tables_used := fst tc, info_columns_used := snd tc\<rparr>)"

text \<open>
  The schema catalog is the dictionary \<open>schema_info.get('tables', {})\<close>: a map from the
  table names to the table schemas, each with its list of columns. The optional argument
  \<open>schema_info\<close> of \<open>validate_query\<close> is \<open>None\<close> when no schema is given (Python also
  skips the schema phase for an empty dictionary) and \<open>Some tables\<close> otherwise.
  Every column of the catalog has a name, so the schema phase cannot raise; its handler,
  which would add a warning and leave the errors as they are, is never entered.
\<close>

record column_def =
  column_name :: string
  column_type :: string

record table_schema =
  table_columns :: "column_def list"

type_synonym schema_catalog = "string \<rightharpoonup> table_schema"

fun check_tables :: "schema_catalog \<Rightarrow> string list \<Rightarrow> schema_result \<Rightarrow> schema_result" where
  "check_tables tables [] result = result"
| "check_tables tables (t # ts) result =
     check_tables tables ts
       (if t \<notin> dom tables then
          result\<lparr>is_valid := False,
                 errors := errors result @
                   [''Table '' @ quoted t @ '' does not exist in schema'']\<rparr>
        else result)"

fun check_columns :: "schema_catalog \<Rightarrow> column_ref list \<Rightarrow> schema_result \<Rightarrow> schema_result" where
  "check_columns tables [] result = result"
| "check_columns tables (column_info # cs) result =
     check_columns tables cs
       (case ref_table column_info of
          None \<Rightarrow> result
        | Some table_name \<Rightarrow>
            (case tables table_name of
               None \<Rightarrow> result
             | Some table_schema \<Rightarrow>
                 if table_name \<noteq> [] \<and> ref_column column_info \<noteq> [] \<and>
                    ref_column column_info \<notin> set (map column_name (table_columns table_schema))
                 then result\<lparr>warnings := warnings result @
                        [''Column '' @ quoted (ref_column column_info) @
                         '' not found in table '' @ quoted table_name]\<rparr>
                 else result))"

definition validate_against_schema :: "parser \<Rightarrow> string \<Rightarrow> schema_catalog \<Rightarrow> schema_result" where
  "validate_against_schema parse sql_query tables =
     (let result = \<lparr>is_valid = True, errors = [], warnings = []\<rparr>;
          info = extract_query_info parse sql_query;
          result = check_tables tables (info_tables_used info) result;
          result = check_columns tables (info_columns_used info) result
      in result)"

definition validate_performance :: "string \<Rightarrow> performance_result" where
  "validate_performance sql_query =
     (let result = \<lparr>perf_warnings = [], perf_suggestions = []\<rparr>;
          sql_upper = upper sql_query;
          result = (if str_in ''SELECT *'' sql_upper \<and> \<not> str_in ''LIMIT'' sql_upper then
                      result\<lparr>perf_warnings := perf_warnings result @
                               [''SELECT * without LIMIT may return large datasets''],
                             perf_suggestions := perf_suggestions result @
                               [''Consider adding LIMIT clause or selecting specific columns'']\<rparr>
                    else result);
          result = (if str_in ''SELECT'' sql_upper \<and> \<not> str_in ''WHERE'' sql_upper then
                      result\<lparr>perf_suggestions := perf_suggestions result @
                               [''Consider adding WHERE clause for better performance'']\<rparr>
                    else result);
          result = (if str_count ''FROM'' sql_upper > 1 \<and> \<not> str_in ''JOIN'' sql_upper then
                      result\<lparr>perf_warnings := perf_warnings result @
                               [''Multiple FROM clauses without JOIN may cause cartesian products'']\<rparr>
                    else result);
          result = (if str_in ''ORDER BY'' sql_upper \<and> \<not> str_in ''LIMIT'' sql_upper then
                      result\<lparr>perf_suggestions := perf_suggestions result @
                               [''Consider adding LIMIT with ORDER BY for better performance'']\<rparr>
                    else result)
      in result)"

section \<open>QueryValidator.validate\_query\<close>

text \<open>
  The phases in the order of the source. A failed syntax phase returns at once. The phases
  called after it catch their own exceptions, so the handler around the whole body is
  never entered.
\<close>

definition validate_query :: "parser \<Rightarrow> string \<Rightarrow> schema_catalog option \<Rightarrow> validation_result" where
  "validate_query parse sql_query schema_info =
     (let validation_result =
            \<lparr>is_valid = True, errors = [], warnings = [], suggestions = [],
             query_type = ''unknown'', tables_used = [], columns_used = []\<rparr>;
          syntax_result = validate_syntax parse sql_query
      in
      if \<not> is_valid syntax_result then
        validation_result\<lparr>is_valid := False,
          errors := errors validation_result @ errors syntax_result\<rparr>
      else
        let security_result = validate_security sql_query;
            validation_result =
              (if \<not> is_valid security_result then
                 validation_result\<lparr>is_valid := False,
                   errors := errors validation_result @ errors security_result\<rparr>
               else validation_result);
            info = extract_query_info parse sql_query;
            validation_result =
              validation_result\<lparr>query_type := info_query_type info,
                tables_used := info_tables_used info,
                columns_used := info_columns_used info\<rparr>;
            validation_result =
              (case schema_info of
                 None \<Rightarrow> validation_result
               | Some tables \<Rightarrow>
                   let schema_result = validate_against_schema parse sql_query tables;
                       validation_result =
                         (if \<not> is_valid schema_result then
                            validation_result\<lparr>is_valid := False,
                              errors := errors validation_result @ errors schema_result\<rparr>
                          else validation_result)
                   in validation_result\<lparr>warnings := warnings validation_result @
                        warnings schema_result\<rparr>);
            performance_result = validate_performance sql_query
        in validation_result\<lparr>
             warnings := warnings validation_result @ perf_warnings performance_result,
             suggestions := suggestions validation_result @
               perf_suggestions performance_result\<rparr>)"

text \<open>
  A small parser for the examples: the query is one statement whose tokens are its words,
  all of them keywords but the word after FROM, which is a name; an empty query has no
  statement.
\<close>

fun split_words :: "string \<Rightarrow> string \<Rightarrow> string list" where
  "split_words w [] = (if w = [] then [] else [w])"
| "split_words w (c # cs) =
     (if is_space c then (if w = [] then split_words [] cs else w # split_words [] cs)
      else split_words (w @ [c]) cs)"

fun word_tokens :: "bool \<Rightarrow> string list \<Rightarrow> token list" where
  "word_tokens after_from [] = []"
| "word_tokens after_from (w # ws) =
     Leaf (Some (if after_from then Name else Keyword)) False w #
       word_tokens (upper w = ''FROM'') ws"

definition toy_parse :: parser where
  "toy_parse sql_query =
     (let ws = split_words [] sql_query in
      if ws = [] then Inr [] else Inr [word_tokens False ws])"

text \<open>The four tests of the security phase, none of which fires.\<close>

definition security_clean :: "string \<Rightarrow> bool" where
  "security_clean sql_query =
     ((\<forall>k \<in> set dangerous_keywords. \<not> str_in k (upper sql_query)) \<and>
      (\<forall>p \<in> set forbidden_patterns. \<not> re_search p (upper sql_query)) \<and>
      \<not> str_count '';'' sql_query > 1 \<and>
      \<not> (str_in ''--'' sql_query \<or> str_in ''/*'' sql_query))"

section \<open>FewShotLearning: the example store and similar examples\<close>

record example =
  natural_language :: string
  sql :: string
  category :: string
  difficulty :: string

datatype py_error = ZeroDivisionError

text \<open>\<open>str.split()\<close> without argument: the words between runs of white space.\<close>

definition py_split :: "string \<Rightarrow> string list" where
  "py_split s = split_words [] s"

text \<open>\<open>add_example\<close> appends to the store; it checks nothing.\<close>

definition add_example ::
  "example list \<Rightarrow> string \<Rightarrow> string \<Rightarrow> string \<Rightarrow> string \<Rightarrow> example list" where
  "add_example examples nl sql_text cat diff =
     examples @ [\<lparr>natural_language = nl, sql = sql_text, category = cat, difficulty = diff\<rparr>]"

text \<open>
  The similarity score of the source: the number of distinct common words, divided by the
  larger of the two word counts (the lengths of the two lists of words, duplicates
  included). The score is an exact rational here; the source computes it in double
  precision, which orders and compares these quotients with 0.1 in the same way unless a
  text has many millions of words.
\<close>

definition similarity_score :: "string \<Rightarrow> string \<Rightarrow> rat" where
  "similarity_score query_lower example_text =
     of_nat (card (set (py_split query_lower) \<inter> set (py_split example_text))) /
     of_nat (max (length (py_split query_lower)) (length (py_split example_text)))"

text \<open>The loop over the store; the division raises when both texts have no word.\<close>

fun collect_similar ::
  "string \<Rightarrow> example list \<Rightarrow> (rat \<times> example) list \<Rightarrow> py_error + (rat \<times> example) list" where
  "collect_similar query_lower [] similarities = Inr similarities"
| "collect_similar query_lower (ex # examples) similarities =
     (let example_text = lower (natural_language ex) in
      if max (length (py_split query_lower)) (length (py_split example_text)) = 0
      then Inl ZeroDivisionError
      else
        let score = similarity_score query_lower example_text in
        collect_similar query_lower examples
          (if score > 1 / 10 then similarities @ [(score, ex)] else similarities))"

text \<open>
  \<open>xs[:limit]\<close>: a negative limit counts from the end. \<open>list.sort(key, reverse=True)\<close> is
  a stable sort on the key in descending order: a stable insertion sort on the negated
  key.
\<close>

definition slice_to :: "'a list \<Rightarrow> int \<Rightarrow> 'a list" where
  "slice_to xs limit =
     (if limit \<ge> 0 then take (nat limit) xs else take (nat (int (length xs) + limit)) xs)"

definition get_similar_examples :: "example list \<Rightarrow> string \<Rightarrow> int \<Rightarrow> py_error + example list" where
  "get_similar_examples examples query limit =
     (let query_lower = lower query in
      case collect_similar query_lower examples [] of
        Inl e \<Rightarrow> Inl e
      | Inr similarities \<Rightarrow>
          Inr (map snd (slice_to (sort_key (\<lambda>x. - fst x) similarities) limit)))"

text \<open>The score of an example for a query, as the loop computes it.\<close>

definition score_of :: "string \<Rightarrow> example \<Rightarrow> rat" where
  "score_of query ex = similarity_score (lower query) (lower (natural_language ex))"

text \<open>
  The score as the specification words it: the common words divided by the larger of the
  sizes of the two sets of words.
\<close>

definition spec_score :: "string \<Rightarrow> example \<Rightarrow> rat" where
  "spec_score query ex =
     (let a = set (py_split (lower query)); b = set (py_split (lower (natural_language ex)))
      in of_nat (card (a \<inter> b)) / of_nat (max (card a) (card b)))"

section \<open>MockNL2SQLGenerator.\_pattern\_match\_sql\<close>

definition any_in :: "string list \<Rightarrow> string \<Rightarrow> bool" where
  "any_in words s = list_ex (\<lambda>word. str_in word s) words"

text \<open>
  \<open>re.search(r'(\d+)', query)\<close>: the first run of digits, if any.
  \<open>re.search(r'top\s+(\d+)', query_lower)\<close>: the digits after the first \<open>top\<close> that is
  followed by white space and a digit.
\<close>

definition first_number :: "string \<Rightarrow> string option" where
  "first_number s =
     (let r = dropWhile (\<lambda>c. \<not> is_digit c) s in
      if r = [] then None else Some (takeWhile is_digit r))"

fun top_number :: "string \<Rightarrow> string option" where
  "top_number [] = None"
| "top_number (c # cs) =
     (if prefix ''top'' (c # cs) then
        (case drop 3 (c # cs) of
           [] \<Rightarrow> top_number cs
         | x # xs \<Rightarrow>
             if is_space x \<and> dropWhile is_space xs \<noteq> [] \<and> is_digit (hd (dropWhile is_space xs))
             then Some (takeWhile is_digit (dropWhile is_space xs))
             else top_number cs)
      else top_number cs)"

text \<open>Each rule returns its statement, or nothing when the code falls through.\<close>

definition pattern_show_all :: "string \<Rightarrow> string list \<Rightarrow> string option" where
  "pattern_show_all query_lower tables =
     (if any_in [''show me all'', ''get all'', ''list all'', ''display all''] query_lower then
        (case find (\<lambda>table. str_in table query_lower) tables of
           Some table \<Rightarrow> Some (''SELECT * FROM '' @ table)
         | None \<Rightarrow> if ''users'' \<in> set tables then Some ''SELECT * FROM users'' else None)
      else None)"

definition pattern_count :: "string \<Rightarrow> string list \<Rightarrow> string option" where
  "pattern_count query_lower tables =
     (if any_in [''count'', ''number of'', ''how many'', ''total''] query_lower then
        (case find (\<lambda>table. str_in table query_lower) tables of
           Some table \<Rightarrow> Some (''SELECT COUNT(*) FROM '' @ table)
         | None \<Rightarrow> if ''users'' \<in> set tables then Some ''SELECT COUNT(*) FROM users'' else None)
      else None)"

definition pattern_price :: "string \<Rightarrow> string \<Rightarrow> string list \<Rightarrow> string option" where
  "pattern_price query query_lower tables =
     (if (str_in ''price'' query_lower \<or> str_in ''cost'' query_lower) \<and>
         ''products'' \<in> set tables then
        (case first_number query of
           Some price \<Rightarrow>
             if str_in ''more than'' query_lower \<or> str_in ''greater than'' query_lower
             then Some (''SELECT * FROM products WHERE price > '' @ price)
             else if str_in ''less than'' query_lower \<or> str_in ''under'' query_lower
             then Some (''SELECT * FROM products WHERE price < '' @ price)
             else Some (''SELECT * FROM products WHERE price = '' @ price)
         | None \<Rightarrow> Some ''SELECT * FROM products ORDER BY price DESC'')
      else None)"

definition pattern_find :: "string \<Rightarrow> string \<Rightarrow> string list \<Rightarrow> string option" where
  "pattern_find query query_lower tables =
     (if any_in [''find'', ''get'', ''show'', ''display''] query_lower then
        (case pattern_price query query_lower tables of
           Some r \<Rightarrow> Some r
         | None \<Rightarrow>
             if str_in ''user'' query_lower \<and> ''users'' \<in> set tables
             then Some ''SELECT * FROM users'' else None)
      else None)"

definition pattern_top :: "string \<Rightarrow> string list \<Rightarrow> string option" where
  "pattern_top query_lower tables =
     (if str_in ''top'' query_lower then
        (case top_number query_lower of
           Some limit \<Rightarrow>
             if ''products'' \<in> set tables \<and>
                (str_in ''expensive'' query_lower \<or> str_in ''price'' query_lower)
             then Some (''SELECT * FROM products ORDER BY price DESC LIMIT '' @ limit)
             else if ''users'' \<in> set tables
             then Some (''SELECT * FROM users LIMIT '' @ limit)
             else None
         | None \<Rightarrow> None)
      else None)"

definition pattern_orders :: "string \<Rightarrow> string list \<Rightarrow> string option" where
  "pattern_orders query_lower tables =
     (if str_in ''order'' query_lower \<and> ''orders'' \<in> set tables then
        (if str_in ''customer'' query_lower
         then Some ''SELECT o.*, u.username FROM orders o JOIN users u ON o.user_id = u.id''
         else Some ''SELECT * FROM orders'')
      else None)"

definition pattern_products :: "string \<Rightarrow> string list \<Rightarrow> string option" where
  "pattern_products query_lower tables =
     (if str_in ''product'' query_lower \<and> str_in ''categor'' query_lower \<and>
         ''products'' \<in> set tables \<and> ''categories'' \<in> set tables
      then Some (''SELECT p.name, p.price, c.name as category FROM products p '' @
                 ''JOIN categories c ON p.category_id = c.id'')
      else None)"

definition fallback :: "string list \<Rightarrow> string" where
  "fallback tables =
     (if ''users'' \<in> set tables then ''SELECT * FROM users LIMIT 10''
      else if tables \<noteq> [] then ''SELECT * FROM '' @ hd tables @ '' LIMIT 10''
      else ''SELECT 1'')"

definition pattern_match_sql :: "string \<Rightarrow> string list \<Rightarrow> string" where
  "pattern_match_sql query tables =
     (let query_lower = lower query in
      case pattern_show_all query_lower tables of Some r \<Rightarrow> r | None \<Rightarrow>
      case pattern_count query_lower tables of Some r \<Rightarrow> r | None \<Rightarrow>
      case pattern_find query query_lower tables of Some r \<Rightarrow> r | None \<Rightarrow>
      case pattern_top query_lower tables of Some r \<Rightarrow> r | None \<Rightarrow>
      case pattern_orders query_lower tables of Some r \<Rightarrow> r | None \<Rightarrow>
      case pattern_products query_lower tables of Some r \<Rightarrow> r | None \<Rightarrow>
      fallback tables)"

section \<open>QueryValidator.sanitize\_query\<close>

text \<open>
  \<open>re.sub(r'--.*$', '', s, flags=re.MULTILINE)\<close>: from each \<open>--\<close>, found from left to
  right, the text up to the end of the line is removed; the line feed stays.
\<close>

function strip_line_comments :: "string \<Rightarrow> string" where
  "strip_line_comments [] = []"
| "strip_line_comments [c] = [c]"
| "strip_line_comments (c # c' # cs) =
     (if c = CHR ''-'' \<and> c' = CHR ''-''
      then strip_line_comments (dropWhile (\<lambda>x. x \<noteq> CHR 0x0A) cs)
      else c # strip_line_comments (c' # cs))"
  by pat_completeness auto
termination
  by (relation "measure length") (auto simp: le_imp_less_Suc length_dropWhile_le less_Suc_eq_le le_SucI)

text \<open>
  \<open>re.sub(r'/\*.*?\*/', '', s, flags=re.DOTALL)\<close>: from each \<open>/*\<close>, found from left to
  right, the text up to the nearest following \<open>*/\<close> is removed; an opening marker with no
  closing marker after it stays. \<open>close_index s\<close> is the position of the first \<open>*/\<close>.
\<close>

fun close_index :: "string \<Rightarrow> nat option" where
  "close_index [] = None"
| "close_index [c] = None"
| "close_index (c # c' # cs) =
     (if c = CHR ''*'' \<and> c' = CHR ''/'' then Some 0
      else map_option Suc (close_index (c' # cs)))"

function strip_block_comments :: "string \<Rightarrow> string" where
  "strip_block_comments [] = []"
| "strip_block_comments [c] = [c]"
| "strip_block_comments (c # c' # cs) =
     (if c = CHR ''/'' \<and> c' = CHR ''*'' then
        (case close_index cs of
           Some i \<Rightarrow> strip_block_comments (drop (i + 2) cs)
         | None \<Rightarrow> c # strip_block_comments (c' # cs))
      else c # strip_block_comments (c' # cs))"
  by pat_completeness auto
termination
  by (relation "measure length") auto

text \<open>\<open>re.sub(r'\s+', ' ', s)\<close> and \<open>str.strip()\<close>.\<close>

function collapse_whitespace :: "string \<Rightarrow> string" where
  "collapse_whitespace [] = []"
| "collapse_whitespace (c # cs) =
     (if is_space c then CHR '' '' # collapse_whitespace (dropWhile is_space cs)
      else c # collapse_whitespace cs)"
  by pat_completeness auto
termination
  by (relation "measure length") (auto simp: le_imp_less_Suc length_dropWhile_le)

fun rstrip :: "string \<Rightarrow> string" where
  "rstrip [] = []"
| "rstrip (c # cs) = (if rstrip cs = [] \<and> is_space c then [] else c # rstrip cs)"

definition py_strip :: "string \<Rightarrow> string" where
  "py_strip s = rstrip (dropWhile is_space s)"

definition sanitize_query :: "string \<Rightarrow> string" where
  "sanitize_query sql_query =
     (let sql_query = strip_line_comments sql_query;
          sql_query = strip_block_comments sql_query;
          sql_query = py_strip (collapse_whitespace sql_query);
          sql_query = (if CHR '';'' \<in> set sql_query
                       then py_strip (takeWhile (\<lambda>c. c \<noteq> CHR '';'') sql_query)
                       else sql_query)
      in sql_query)"

text \<open>
  The text has single spaces as its only white space: what \<open>collapse_whitespace\<close>
  leaves.
\<close>

fun collapsed :: "string \<Rightarrow> bool" where
  "collapsed [] = True"
| "collapsed [c] = (is_space c \<longrightarrow> c = CHR '' '')"
| "collapsed (c # c' # cs) =
     ((is_space c \<longrightarrow> c = CHR '' '' \<and> \<not> is_space c') \<and> collapsed (c' # cs))"

text \<open>The examples that pass the threshold, each with its score, in store order.\<close>

definition scored :: "string \<Rightarrow> example list \<Rightarrow> (rat \<times> example) list" where
  "scored query examples =
     map (\<lambda>ex. (score_of query ex, ex)) (filter (\<lambda>ex. score_of query ex > 1 / 10) examples)"

section \<open>Properties of the complexity score and of example validation\<close>

lemma of_char_le_255: "(of_char c :: nat) < 256"
  by (metis of_char_mod_256 mod_less_divisor zero_less_numeral)

lemma to_upper_idem: "to_upper (to_upper c) = to_upper c"
proof (cases "is_ascii_lower c")
  case True
  then have "\<not> is_ascii_lower (char_of ((of_char c :: nat) - 32))"
    by (auto simp: is_ascii_lower_def)
  with True show ?thesis by (simp add: to_upper_def)
next
  case False
  then show ?thesis by (simp add: to_upper_def)
qed

lemma str_in_append: "str_in k s \<Longrightarrow> str_in k (p @ s @ t)"
  by (auto simp: str_in_def sublist_def) (metis append.assoc)

lemma upper_append: "upper (s @ t) = upper s @ upper t"
  by (simp add: upper_def)

lemma if_bump: "(if c then (x::int) + w else x) = x + (if c then w else 0)"
  by simp

lemma sum_filter_Cons:
  "sum_list (map f (filter P (x # xs))) = (if P x then f x else (0::int)) + sum_list (map f (filter P xs))"
  by simp

lemma score_sum_list:
  "get_query_complexity_score s =
     min (1 + sum_list (map weight (filter (\<lambda>i. fires i (upper s)) all_indicators))) 10"
proof -
  have "get_query_complexity_score s =
      min (1 + (if fires JOIN (upper s) then 2 else 0)
             + (if fires GROUP_BY (upper s) then 1 else 0)
             + (if fires HAVING (upper s) then 1 else 0)
             + (if fires ORDER_BY (upper s) then 1 else 0)
             + (if fires LIMIT (upper s) then 1 else 0)
             + (if fires WHERE (upper s) then 1 else 0)
             + (if fires DISTINCT (upper s) then 1 else 0)
             + (if fires UNION (upper s) then 2 else 0)
             + (if fires SUBQUERY (upper s) then 2 else 0)) 10"
    unfolding get_query_complexity_score_def Let_def fires.simps
    by (simp only: if_bump)
  also have "\<dots> = min (1 + sum_list (map weight
      (filter (\<lambda>i. fires i (upper s)) all_indicators))) 10"
    unfolding all_indicators_def
    by (simp only: sum_filter_Cons weight.simps filter.simps(1)
        list.map(1) sum_list.Nil add.assoc add_0_right)
  finally show ?thesis .
qed

lemma distinct_all_indicators: "distinct all_indicators"
  by (simp add: all_indicators_def)

lemma score_sum:
  "get_query_complexity_score s = min (1 + sum weight (triggered s)) 10"
  by (simp add: score_sum_list triggered_def sum_list_distinct_conv_sum_set
      distinct_all_indicators)

lemma weight_nonneg: "0 \<le> weight i"
  by (cases i) simp_all

lemma finite_triggered: "finite (triggered s)"
  by (simp add: triggered_def)

lemma score_mono:
  assumes "triggered s1 \<subseteq> triggered s2"
  shows "get_query_complexity_score s1 \<le> get_query_complexity_score s2"
proof -
  have "sum weight (triggered s1) \<le> sum weight (triggered s2)"
    by (rule sum_mono2[OF finite_triggered assms]) (rule weight_nonneg)
  then show ?thesis by (simp add: score_sum)
qed

lemma fires_append: "fires i (upper s) \<Longrightarrow> fires i (upper (p @ s @ t))"
  by (cases i) (auto simp: upper_append intro: str_in_append)

lemma triggered_append: "triggered s \<subseteq> triggered (p @ s @ t)"
  by (auto simp: triggered_def intro: fires_append)

text \<open>
  Claim C9, as stated: with a parenthesis as the ninth indicator, the text \<open>SUBQUERY\<close>
  triggers no indicator, like the text \<open>x\<close>; yet its score is 3 and not 1, because the
  code also counts the word SUBQUERY.
\<close>

theorem complexity_score_subquery_counterexample:
  "spec_triggered ''SUBQUERY'' \<subseteq> spec_triggered ''x'' \<and>
   get_query_complexity_score ''SUBQUERY'' = 3 \<and> get_query_complexity_score ''x'' = 1"
  by code_simp

text \<open>
  Claim C9, amended. The complexity score of every SQL string lies in the closed interval
  from 1 to 10. The score is monotone in the set of triggered indicators, the ninth of
  which fires on an opening parenthesis or on the word SUBQUERY: whenever the indicators
  triggered by one string are among those triggered by another, the first score is at
  most the second. In particular, appending text to a query never decreases its score.
\<close>

theorem complexity_score_bounded_monotone:
  "1 \<le> get_query_complexity_score s \<and> get_query_complexity_score s \<le> 10 \<and>
   (triggered s1 \<subseteq> triggered s2 \<longrightarrow>
      get_query_complexity_score s1 \<le> get_query_complexity_score s2) \<and>
   get_query_complexity_score s \<le> get_query_complexity_score (s @ t)"
proof -
  have "0 \<le> sum weight (triggered s)"
    by (rule sum_nonneg) (rule weight_nonneg)
  then have "1 \<le> get_query_complexity_score s" "get_query_complexity_score s \<le> 10"
    by (simp_all add: score_sum)
  moreover have "get_query_complexity_score s \<le> get_query_complexity_score (s @ t)"
    using score_mono[OF triggered_append[of s "[]" t]] by simp
  ultimately show ?thesis using score_mono by blast
qed

theorem complexity_score_bounded_monotone_witness:
  "triggered ''select a from t'' \<subseteq> triggered ''select a from t where (b)'' \<and>
   get_query_complexity_score ''select a from t'' = 1 \<and>
   get_query_complexity_score ''select a from t where (b)'' = 4 \<and>
   get_query_complexity_score ''select a from t'' \<le>
     get_query_complexity_score ''select a from t where (b)''"
proof -
  have h: "triggered ''select a from t'' \<subseteq> triggered ''select a from t where (b)''"
    by code_simp
  have v1: "get_query_complexity_score ''select a from t'' = 1" by code_simp
  have v2: "get_query_complexity_score ''select a from t where (b)'' = 4" by code_simp
  from complexity_score_bounded_monotone[of "''select a from t''" "''select a from t''"
      "''select a from t where (b)''" "[]"] h
  have "get_query_complexity_score ''select a from t'' \<le>
     get_query_complexity_score ''select a from t where (b)''" by blast
  with h v1 v2 show ?thesis by blast
qed

text \<open>
  Claim C8. The claim requires both keywords SELECT and FROM; the function accepts a SQL
  text that contains only one of them. On the input of the repository's own test
  \<open>test_validate_example\<close> (a DELETE statement, expected to be rejected) it returns
  true.
\<close>

theorem validate_example_delete_from:
  "validate_example ''Show me users'' ''DELETE FROM users'' = True"
  by code_simp

lemma validate_example_iff:
  "validate_example nl sql_text \<longleftrightarrow>
     nl \<noteq> [] \<and> sql_text \<noteq> [] \<and>
     (str_in ''SELECT'' (upper sql_text) \<or> str_in ''FROM'' (upper sql_text))"
  by (simp add: validate_example_def Let_def)

section \<open>Properties of the validator\<close>

lemma check_keywords_valid:
  "is_valid (check_keywords ks u r) = (is_valid r \<and> (\<forall>k \<in> set ks. \<not> str_in k u))"
  by (induction ks arbitrary: r) auto

lemma check_keywords_errors:
  "(errors (check_keywords ks u r) = []) = (errors r = [] \<and> (\<forall>k \<in> set ks. \<not> str_in k u))"
  by (induction ks arbitrary: r) auto

lemma check_patterns_valid:
  "is_valid (check_patterns ps u r) = (is_valid r \<and> (\<forall>p \<in> set ps. \<not> re_search p u))"
  by (induction ps arbitrary: r) auto

lemma check_patterns_errors:
  "(errors (check_patterns ps u r) = []) = (errors r = [] \<and> (\<forall>p \<in> set ps. \<not> re_search p u))"
  by (induction ps arbitrary: r) auto

lemma validate_security_valid:
  "is_valid (validate_security sql_query) = security_clean sql_query"
  unfolding validate_security_def security_clean_def Let_def
  by (simp add: check_patterns_valid check_keywords_valid)

lemma validate_security_errors:
  "(errors (validate_security sql_query) = []) = security_clean sql_query"
  unfolding validate_security_def security_clean_def Let_def
  by (simp add: check_patterns_errors check_keywords_errors)

lemma validate_syntax_errors:
  "(errors (validate_syntax parse sql_query) = []) = is_valid (validate_syntax parse sql_query)"
  by (simp add: validate_syntax_def Let_def split: sum.splits)

lemma check_tables_valid:
  "is_valid (check_tables tables ts r) = (is_valid r \<and> set ts \<subseteq> dom tables)"
  by (induction ts arbitrary: r) auto

lemma check_tables_errors:
  "(errors (check_tables tables ts r) = []) = (errors r = [] \<and> set ts \<subseteq> dom tables)"
  by (induction ts arbitrary: r) auto

lemma check_columns_valid: "is_valid (check_columns tables cs r) = is_valid r"
  by (induction cs arbitrary: r) (auto split: option.splits)

lemma check_columns_errors: "errors (check_columns tables cs r) = errors r"
  by (induction cs arbitrary: r) (auto split: option.splits)

lemma validate_against_schema_errors:
  "(errors (validate_against_schema parse sql_query tables) = []) =
     is_valid (validate_against_schema parse sql_query tables)"
  by (simp add: validate_against_schema_def Let_def check_columns_valid check_columns_errors
      check_tables_valid check_tables_errors)

lemma validate_query_valid:
  "is_valid (validate_query parse sql_query schema_info) =
     (is_valid (validate_syntax parse sql_query) \<and> is_valid (validate_security sql_query) \<and>
      (case schema_info of None \<Rightarrow> True
       | Some tables \<Rightarrow> is_valid (validate_against_schema parse sql_query tables)))"
  by (simp add: validate_query_def Let_def split: option.splits)

lemma validate_query_errors:
  "errors (validate_query parse sql_query schema_info) =
     (if \<not> is_valid (validate_syntax parse sql_query) then errors (validate_syntax parse sql_query)
      else (if \<not> is_valid (validate_security sql_query) then errors (validate_security sql_query) else [])
        @ (case schema_info of None \<Rightarrow> []
           | Some tables \<Rightarrow>
               if \<not> is_valid (validate_against_schema parse sql_query tables)
               then errors (validate_against_schema parse sql_query tables) else []))"
  by (simp add: validate_query_def Let_def split: option.splits)

lemma validate_query_valid_iff_no_errors:
  "is_valid (validate_query parse sql_query schema_info) =
     (errors (validate_query parse sql_query schema_info) = [])"
  unfolding validate_query_valid validate_query_errors
  using validate_syntax_errors[of parse sql_query] validate_security_errors[of sql_query]
    validate_security_valid[of sql_query]
  by (cases schema_info) (auto simp: validate_against_schema_errors)

lemma to_upper_to_lower: "\<not> is_ascii_lower c \<Longrightarrow> to_upper (to_lower c) = c"
proof (cases "is_ascii_upper c")
  case True
  then have l: "is_ascii_lower (char_of ((of_char c :: nat) + 32))"
    by (auto simp: is_ascii_lower_def is_ascii_upper_def)
  from True have "((of_char c :: nat) + 32) mod 256 = of_char c + 32"
    by (simp add: is_ascii_upper_def)
  with True l show ?thesis by (simp add: to_upper_def to_lower_def)
next
  case False
  assume "\<not> is_ascii_lower c"
  with False show ?thesis by (simp add: to_upper_def to_lower_def)
qed

lemma not_lower_to_upper: "\<not> is_ascii_lower (to_upper c)"
  by (auto simp: to_upper_def is_ascii_lower_def)

lemma upper_lower_upper: "upper (lower (upper s)) = upper s"
  by (induction s) (simp_all add: upper_def lower_def to_upper_to_lower not_lower_to_upper)

lemma sublist_upper_fixed:
  assumes "sublist t (upper s)"
  shows "upper (lower t) = t"
proof -
  from assms obtain a b where "upper s = a @ t @ b"
    by (auto simp: sublist_def)
  then have "\<forall>c \<in> set t. \<not> is_ascii_lower c"
    by (metis (no_types, lifting) Un_iff imageE list.set_map not_lower_to_upper set_append upper_def)
  then show ?thesis
    by (induction t) (simp_all add: upper_def lower_def to_upper_to_lower)
qed

lemma sublist_ConsI: "sublist t cs \<Longrightarrow> sublist t (c # cs)"
  by (simp add: sublist_Cons_right)

lemma ex_sublist_Cons:
  assumes "\<exists>t. sublist t cs \<and> P t"
  shows "\<exists>t. sublist t (c # cs) \<and> P t"
proof -
  from assms obtain t where t: "sublist t cs \<and> P t" ..
  then have "sublist t (c # cs)" by (simp add: sublist_ConsI)
  with t have "sublist t (c # cs) \<and> P t" by simp
  then show ?thesis ..
qed

lemma ex_sublist_drop:
  assumes "\<exists>t. sublist t (drop n s) \<and> P t"
  shows "\<exists>t. sublist t s \<and> P t"
proof -
  from assms obtain t where t: "sublist t (drop n s) \<and> P t" ..
  have "sublist (drop n s) s" by (rule sublist_drop)
  with t have "sublist t s" by (metis sublist_order.order_trans)
  with t have "sublist t s \<and> P t" by simp
  then show ?thesis ..
qed

lemma match_here_literal:
  "match_here p s \<Longrightarrow> Lit l \<in> set p \<Longrightarrow> \<exists>t. sublist t s \<and> lower t = lower l"
proof (induction p s rule: match_here.induct)
  case (1 s)
  then show ?case by simp
next
  case (2 l' p s)
  from "2.prems"(1) have m: "length l' \<le> length s" "lower (take (length l') s) = lower l'"
    "match_here p (drop (length l') s)" by simp_all
  show ?case
  proof (cases "l' = l")
    case True
    with m(2) have "sublist (take (length l) s) s \<and> lower (take (length l) s) = lower l"
      by simp
    then show ?thesis ..
  next
    case False
    with "2.prems"(2) have "Lit l \<in> set p" by simp
    from "2.IH"[OF m(3) this] show ?thesis by (rule ex_sublist_drop)
  qed
next
  case (3 p)
  then show ?case by simp
next
  case (4 p c cs)
  from "4.prems" have l: "Lit l \<in> set p" by simp
  show ?case
  proof (cases "match_here p (c # cs)")
    case True
    from "4.IH"(1)[OF True l] show ?thesis .
  next
    case False
    with "4.prems"(1) have m: "match_here (Spaces0 # p) cs" by simp
    from "4.IH"(2)[OF m "4.prems"(2)] show ?thesis by (rule ex_sublist_Cons)
  qed
next
  case (5 p)
  then show ?case by simp
next
  case (6 p c cs)
  from "6.prems"(1) have m: "match_here (Spaces0 # p) cs" by simp
  from "6.prems"(2) have "Lit l \<in> set (Spaces0 # p)" by simp
  from "6.IH"[OF m this] show ?case by (rule ex_sublist_Cons)
next
  case (7 p)
  then show ?case by simp
next
  case (8 p c cs)
  from "8.prems" have l: "Lit l \<in> set p" by simp
  have "\<exists>t. sublist t cs \<and> lower t = lower l"
  proof (cases "match_here p cs")
    case True
    from "8.IH"(1)[OF True l] show ?thesis .
  next
    case False
    with "8.prems"(1) have m: "match_here (Words1 # p) cs" by simp
    from "8.IH"(2)[OF m "8.prems"(2)] show ?thesis .
  qed
  then show ?case by (rule ex_sublist_Cons)
qed

lemma re_search_literal:
  "re_search p s \<Longrightarrow> Lit l \<in> set p \<Longrightarrow> \<exists>t. sublist t s \<and> lower t = lower l"
proof (induction s)
  case Nil
  then have "match_here p []" by simp
  then show ?case using Nil.prems(2) by (rule match_here_literal)
next
  case (Cons c cs)
  show ?case
  proof (cases "match_here p (c # cs)")
    case True
    then show ?thesis using Cons.prems(2) by (rule match_here_literal)
  next
    case False
    with Cons.prems(1) have "re_search p cs" by simp
    from Cons.IH[OF this Cons.prems(2)] show ?thesis by (rule ex_sublist_Cons)
  qed
qed

lemma re_search_upper_keyword:
  assumes "re_search p (upper sql_query)" and "Lit k \<in> set p" and "upper (lower k) = k"
  shows "str_in k (upper sql_query)"
proof -
  from re_search_literal[OF assms(1,2)] obtain t
    where t: "sublist t (upper sql_query)" "lower t = lower k" by blast
  from sublist_upper_fixed[OF t(1)] t(2) assms(3) have "t = k" by simp
  with t(1) show ?thesis by (simp add: str_in_def)
qed

lemma forbidden_patterns_have_keyword:
  "\<forall>p \<in> set forbidden_patterns. \<exists>k \<in> set dangerous_keywords. Lit k \<in> set p"
  by (simp add: forbidden_patterns_def dangerous_keywords_def)

lemma dangerous_keywords_upper:
  "\<forall>k \<in> set dangerous_keywords. upper (lower k) = k"
  unfolding dangerous_keywords_def by code_simp

lemma str_count_char: "str_count [c] s = length (filter (\<lambda>x. x = c) s)"
  by (induction s) auto

lemma no_keyword_no_pattern:
  assumes "\<forall>k \<in> set dangerous_keywords. \<not> str_in k (upper sql_query)"
  shows "\<forall>p \<in> set forbidden_patterns. \<not> re_search p (upper sql_query)"
proof
  fix p assume p: "p \<in> set forbidden_patterns"
  then obtain k where k: "k \<in> set dangerous_keywords" "Lit k \<in> set p"
    using forbidden_patterns_have_keyword by blast
  show "\<not> re_search p (upper sql_query)"
  proof
    assume "re_search p (upper sql_query)"
    then have "str_in k (upper sql_query)"
      using re_search_upper_keyword k dangerous_keywords_upper by blast
    with assms k(1) show False by blast
  qed
qed

lemma security_clean_if:
  assumes "\<forall>k \<in> set dangerous_keywords. \<not> str_in k (upper sql_query)"
    and "length (filter (\<lambda>c. c = CHR '';'') sql_query) \<le> 1"
    and "\<not> str_in ''--'' sql_query" and "\<not> str_in ''/*'' sql_query"
  shows "security_clean sql_query"
  unfolding security_clean_def
  using assms no_keyword_no_pattern[OF assms(1)] by (simp add: str_count_char)



lemma str_in_trans: "str_in a b \<Longrightarrow> str_in b c \<Longrightarrow> str_in a c"
  unfolding str_in_def by (rule sublist_order.order_trans)

lemma upper_eq_imp_str_in:
  assumes "sql_query = p @ t @ q"
  shows "str_in (upper t) (upper sql_query)"
  unfolding str_in_def assms upper_def by simp

lemma drop_in_drop_table: "str_in ''DROP'' ''DROP TABLE''"
  by code_simp

lemma drop_in_keywords: "''DROP'' \<in> set dangerous_keywords"
  by (simp add: dangerous_keywords_def)

text \<open>
  Claim C1. A SQL string that contains the text DROP TABLE in any letter case (a part of
  the string whose upper-case form is DROP TABLE) is rejected by \<open>validate_query\<close>, with or
  without a schema and whatever the parser answers: the result is not valid and its list
  of errors is not empty.
\<close>

theorem drop_table_rejected:
  assumes "sql_query = p @ t @ q" and "upper t = ''DROP TABLE''"
  shows "\<not> is_valid (validate_query parse sql_query schema_info) \<and>
         errors (validate_query parse sql_query schema_info) \<noteq> []"
proof -
  have "str_in ''DROP TABLE'' (upper sql_query)"
    using upper_eq_imp_str_in[OF assms(1)] assms(2) by simp
  then have "str_in ''DROP'' (upper sql_query)"
    using drop_in_drop_table by (rule str_in_trans[rotated])
  then have "\<not> security_clean sql_query"
    using drop_in_keywords unfolding security_clean_def by blast
  then have "\<not> is_valid (validate_security sql_query)"
    by (simp add: validate_security_valid)
  then have "\<not> is_valid (validate_query parse sql_query schema_info)"
    by (simp add: validate_query_valid)
  then show ?thesis
    by (simp add: validate_query_valid_iff_no_errors)
qed

theorem drop_table_rejected_witness:
  "''select * from users; Drop Table users'' =
     ''select * from users; '' @ ''Drop Table'' @ '' users'' \<and>
   upper ''Drop Table'' = ''DROP TABLE'' \<and>
   \<not> is_valid (validate_query toy_parse ''select * from users; Drop Table users'' None) \<and>
   errors (validate_query toy_parse ''select * from users; Drop Table users'' None) \<noteq> []"
proof -
  have h1: "''select * from users; Drop Table users'' =
      ''select * from users; '' @ ''Drop Table'' @ '' users''"
    by simp
  have h2: "upper ''Drop Table'' = ''DROP TABLE''"
    by code_simp
  show ?thesis
    using h1 h2 drop_table_rejected[OF h1 h2, of toy_parse None] by blast
qed

lemma validate_query_warnings:
  "warnings (validate_query parse sql_query schema_info) =
     (if \<not> is_valid (validate_syntax parse sql_query) then []
      else (case schema_info of None \<Rightarrow> []
            | Some tables \<Rightarrow> warnings (validate_against_schema parse sql_query tables))
        @ perf_warnings (validate_performance sql_query))"
  by (simp add: validate_query_def Let_def split: option.splits)

text \<open>
  Claim C2. In the result of \<open>validate_query\<close>, for every SQL string, every optional
  schema and every answer of the parser, \<open>is_valid\<close> is false exactly when the list of
  errors is not empty. So the validity is a function of the errors alone: two results
  with the same errors have the same validity, whatever their warnings and suggestions.
\<close>

theorem validity_iff_no_errors:
  "(\<not> is_valid (validate_query parse sql_query schema_info) \<longleftrightarrow>
      errors (validate_query parse sql_query schema_info) \<noteq> []) \<and>
   (errors (validate_query parse' sql_query' schema_info') =
      errors (validate_query parse sql_query schema_info) \<longrightarrow>
    is_valid (validate_query parse' sql_query' schema_info') =
      is_valid (validate_query parse sql_query schema_info))"
  by (simp add: validate_query_valid_iff_no_errors)

theorem validity_iff_no_errors_witness:
  "errors (validate_query toy_parse ''select *'' None) =
     errors (validate_query toy_parse ''select a'' None) \<and>
   warnings (validate_query toy_parse ''select *'' None) \<noteq>
     warnings (validate_query toy_parse ''select a'' None) \<and>
   is_valid (validate_query toy_parse ''select *'' None) =
     is_valid (validate_query toy_parse ''select a'' None)"
proof -
  have syn: "is_valid (validate_syntax toy_parse ''select *'')"
    "is_valid (validate_syntax toy_parse ''select a'')"
    by code_simp+
  have "security_clean ''select *''"
    by (rule security_clean_if) code_simp+
  moreover have "security_clean ''select a''"
    by (rule security_clean_if) code_simp+
  ultimately have sec: "is_valid (validate_security ''select *'')"
    "is_valid (validate_security ''select a'')"
    by (simp_all add: validate_security_valid)
  have h: "errors (validate_query toy_parse ''select *'' None) =
     errors (validate_query toy_parse ''select a'' None)"
    by (simp add: validate_query_errors syn sec)
  have p1: "perf_warnings (validate_performance ''select *'') =
      [''SELECT * without LIMIT may return large datasets'']"
    by code_simp
  have p2: "perf_warnings (validate_performance ''select a'') = []"
    by code_simp
  have w: "warnings (validate_query toy_parse ''select *'' None) \<noteq>
     warnings (validate_query toy_parse ''select a'' None)"
    by (simp add: validate_query_warnings syn p1 p2)
  from h validity_iff_no_errors[of toy_parse "''select a''" None toy_parse "''select *''" None]
  have "is_valid (validate_query toy_parse ''select *'' None) =
     is_valid (validate_query toy_parse ''select a'' None)"
    by blast
  with h w show ?thesis by blast
qed

lemma validate_syntax_fails_iff:
  "\<not> is_valid (validate_syntax parse sql_query) \<longleftrightarrow>
     (\<exists>e. parse sql_query = Inl e) \<or> parse sql_query = Inr [] \<or>
     (\<exists>statement rest. parse sql_query = Inr (statement # rest) \<and>
        \<not> is_select_statement statement)"
  by (auto simp: validate_syntax_def Let_def neq_Nil_conv split: sum.splits)

lemma validate_syntax_one_error:
  "\<not> is_valid (validate_syntax parse sql_query) \<Longrightarrow>
     length (errors (validate_syntax parse sql_query)) = 1"
  by (auto simp: validate_syntax_def Let_def split: sum.splits if_splits)

text \<open>
  Claim C6. When the syntax phase fails on a SQL string (the parser raises, finds no
  statement, or the first token of the first statement is not SELECT), \<open>validate_query\<close>
  returns at once: the result is not valid, its errors are those of the syntax phase
  (exactly one), its warnings and suggestions are empty, its query type is the initial
  value \<open>unknown\<close>, and no table and no column is reported.
\<close>

theorem syntax_failure_short_circuits:
  assumes "\<not> is_valid (validate_syntax parse sql_query)"
  shows "validate_query parse sql_query schema_info =
           \<lparr>is_valid = False, errors = errors (validate_syntax parse sql_query),
            warnings = [], suggestions = [], query_type = ''unknown'',
            tables_used = [], columns_used = []\<rparr> \<and>
         length (errors (validate_syntax parse sql_query)) = 1"
  using assms validate_syntax_one_error[OF assms]
  by (simp add: validate_query_def Let_def)

theorem syntax_failure_short_circuits_witness:
  "\<not> is_valid (validate_syntax toy_parse ''delete from users'') \<and>
   validate_query toy_parse ''delete from users'' (Some Map.empty) =
     \<lparr>is_valid = False, errors = [''Query must be a SELECT statement''],
      warnings = [], suggestions = [], query_type = ''unknown'',
      tables_used = [], columns_used = []\<rparr>"
proof -
  have h: "\<not> is_valid (validate_syntax toy_parse ''delete from users'')"
    by code_simp
  have e: "errors (validate_syntax toy_parse ''delete from users'') =
      [''Query must be a SELECT statement'']"
    by code_simp
  show ?thesis
    using h syntax_failure_short_circuits[OF h, of "Some Map.empty"] unfolding e by blast
qed

section \<open>Properties of the example retriever\<close>

lemma collect_similar_zero:
  assumes "py_split query_lower = []"
    and "\<exists>ex \<in> set examples. py_split (lower (natural_language ex)) = []"
  shows "collect_similar query_lower examples similarities = Inl ZeroDivisionError"
  using assms(2)
proof (induction examples arbitrary: similarities)
  case Nil
  then show ?case by simp
next
  case (Cons ex examples)
  show ?case
  proof (cases "py_split (lower (natural_language ex)) = []")
    case True
    with assms(1) show ?thesis by simp
  next
    case False
    with Cons.prems have "\<exists>ex \<in> set examples. py_split (lower (natural_language ex)) = []"
      by simp
    from Cons.IH[OF this] False show ?thesis by (simp add: Let_def)
  qed
qed

text \<open>
  Claim C10. When the query has no word and an example whose text has no word is added to
  any store (\<open>add_example\<close> accepts it), \<open>get_similar_examples\<close> does not return a list:
  the division by the larger word count, which is zero, raises.
\<close>

theorem similar_examples_division_by_zero:
  assumes "py_split (lower query) = []" and "py_split (lower nl) = []"
  shows "get_similar_examples (add_example examples nl sql_text cat diff) query limit =
           Inl ZeroDivisionError"
proof -
  have "\<exists>ex \<in> set (add_example examples nl sql_text cat diff).
          py_split (lower (natural_language ex)) = []"
    using assms(2) by (simp add: add_example_def)
  from collect_similar_zero[OF assms(1) this] show ?thesis
    by (simp add: get_similar_examples_def)
qed

theorem similar_examples_division_by_zero_witness:
  "py_split (lower '''') = [] \<and> py_split (lower ''  '') = [] \<and>
   get_similar_examples (add_example [] ''  '' ''SELECT 1'' ''custom'' ''medium'') '''' 3 =
     Inl ZeroDivisionError"
proof -
  have h1: "py_split (lower '''') = []" by code_simp
  have h2: "py_split (lower ''  '') = []" by code_simp
  show ?thesis
    using h1 h2 similar_examples_division_by_zero[OF h1 h2, of "[]" "''SELECT 1''"
        "''custom''" "''medium''" 3]
    by blast
qed

lemma collect_similar_total:
  assumes "\<forall>ex \<in> set examples. py_split (lower (natural_language ex)) \<noteq> []"
  shows "collect_similar query_lower examples similarities =
           Inr (similarities @
             map (\<lambda>ex. (similarity_score query_lower (lower (natural_language ex)), ex))
               (filter (\<lambda>ex. similarity_score query_lower (lower (natural_language ex)) > 1 / 10)
                 examples))"
  using assms
proof (induction examples arbitrary: similarities)
  case Nil
  then show ?case by simp
next
  case (Cons ex examples)
  from Cons.prems have w: "py_split (lower (natural_language ex)) \<noteq> []"
    and rest: "\<forall>ex \<in> set examples. py_split (lower (natural_language ex)) \<noteq> []"
    by simp_all
  from w have "max (length (py_split query_lower))
      (length (py_split (lower (natural_language ex)))) \<noteq> 0"
    by simp
  then show ?case
    using Cons.IH[OF rest] by (simp add: Let_def)
qed

lemma slice_to_nonneg: "0 \<le> limit \<Longrightarrow> slice_to xs limit = take (nat limit) xs"
  by (simp add: slice_to_def)

lemma get_similar_examples_eq:
  assumes "\<forall>ex \<in> set examples. py_split (lower (natural_language ex)) \<noteq> []"
    and "0 \<le> limit"
  shows "get_similar_examples examples query limit =
           Inr (take (nat limit) (map snd (sort_key (\<lambda>x. - fst x) (scored query examples))))"
  using collect_similar_total[OF assms(1), of "lower query" "[]"] assms(2)
  by (simp add: get_similar_examples_def scored_def score_of_def slice_to_nonneg take_map)

lemma scored_fst: "x \<in> set (scored query examples) \<Longrightarrow> fst x = score_of query (snd x)"
  by (auto simp: scored_def)

lemma sorted_scored_fst:
  "x \<in> set (sort_key (\<lambda>x. - fst x) (scored query examples)) \<Longrightarrow>
     fst x = score_of query (snd x)"
  by (simp add: scored_fst)

lemma ranked_sorted:
  "sorted_wrt (\<lambda>a b. score_of query a \<ge> score_of query b)
     (map snd (sort_key (\<lambda>x. - fst x) (scored query examples)))"
proof -
  let ?S = "sort_key (\<lambda>x. - fst x) (scored query examples)"
  have "sorted (map (\<lambda>x. - fst x) ?S)" by (rule sorted_sort_key)
  then have "sorted_wrt (\<lambda>x y. - fst x \<le> - fst y) ?S"
    by (simp add: sorted_wrt_map)
  then have "sorted_wrt (\<lambda>x y. score_of query (snd x) \<ge> score_of query (snd y)) ?S"
  proof (rule sorted_wrt_mono_rel[rotated])
    fix x y assume "x \<in> set ?S" "y \<in> set ?S" "- fst x \<le> - fst y"
    then show "score_of query (snd y) \<le> score_of query (snd x)"
      using sorted_scored_fst by fastforce
  qed
  then show ?thesis by (simp add: sorted_wrt_map)
qed

lemma ranked_stable:
  "filter (\<lambda>e. score_of query e = v)
     (map snd (sort_key (\<lambda>x. - fst x) (scored query examples))) =
   filter (\<lambda>e. score_of query e = v \<and> score_of query e > 1 / 10) examples"
proof -
  let ?S = "sort_key (\<lambda>x. - fst x) (scored query examples)"
  have "filter (\<lambda>e. score_of query e = v) (map snd ?S) =
      map snd (filter (\<lambda>x. score_of query (snd x) = v) ?S)"
    by (simp add: filter_map comp_def)
  also have "filter (\<lambda>x. score_of query (snd x) = v) ?S = filter (\<lambda>x. - fst x = - v) ?S"
    by (rule filter_cong) (auto simp: sorted_scored_fst)
  also have "\<dots> = filter (\<lambda>x. - fst x = - v) (scored query examples)"
    by (rule sort_key_stable)
  also have "map snd \<dots> = filter (\<lambda>e. score_of query e = v \<and> score_of query e > 1 / 10) examples"
    by (simp add: scored_def filter_map comp_def conj_commute)
  finally show ?thesis .
qed

lemma ranked_set:
  "set (map snd (sort_key (\<lambda>x. - fst x) (scored query examples))) =
     {e \<in> set examples. score_of query e > 1 / 10}"
  by (auto simp: scored_def image_iff)

text \<open>
  Claim C7, as stated: the score divides by the larger of the two sizes of the word sets.
  For a query of ten times the word \<open>a\<close> and an example whose text is \<open>a\<close>, that score is
  1, above the threshold; the code divides by the larger word count, 10, finds 0.1, which
  is not above the threshold, and returns no example.
\<close>

theorem similar_examples_set_size_counterexample:
  "spec_score ''a a a a a a a a a a''
     \<lparr>natural_language = ''a'', sql = ''SELECT 1'', category = ''c'', difficulty = ''d''\<rparr> > 1 / 10 \<and>
   get_similar_examples
     [\<lparr>natural_language = ''a'', sql = ''SELECT 1'', category = ''c'', difficulty = ''d''\<rparr>]
     ''a a a a a a a a a a'' 3 = Inr []"
  by code_simp

text \<open>
  Claim C7, amended. For every query, every store whose examples each have at least one
  word in their text, and every limit that is not negative: the score of an example is
  the number of distinct words it shares with the query (both in lower case), divided by
  the larger of the two word counts, duplicates included. \<open>get_similar_examples\<close> returns
  the first \<open>limit\<close> entries of a ranking that holds exactly the examples whose score is
  above 0.1, in non-increasing order of score, examples of equal score in store order.
\<close>

theorem similar_examples_ranked:
  assumes "\<forall>ex \<in> set examples. py_split (lower (natural_language ex)) \<noteq> []"
    and "0 \<le> limit"
  shows "\<exists>ranked.
           get_similar_examples examples query limit = Inr (take (nat limit) ranked) \<and>
           length (take (nat limit) ranked) \<le> nat limit \<and>
           set ranked = {e \<in> set examples. score_of query e > 1 / 10} \<and>
           sorted_wrt (\<lambda>a b. score_of query a \<ge> score_of query b) ranked \<and>
           (\<forall>v. filter (\<lambda>e. score_of query e = v) ranked =
                filter (\<lambda>e. score_of query e = v \<and> score_of query e > 1 / 10) examples) \<and>
           (\<forall>e. score_of query e =
                of_nat (card (set (py_split (lower query)) \<inter>
                              set (py_split (lower (natural_language e))))) /
                of_nat (max (length (py_split (lower query)))
                            (length (py_split (lower (natural_language e))))))"
proof -
  let ?ranked = "map snd (sort_key (\<lambda>x. - fst x) (scored query examples))"
  have "get_similar_examples examples query limit = Inr (take (nat limit) ?ranked)"
    by (rule get_similar_examples_eq[OF assms])
  moreover have "length (take (nat limit) ?ranked) \<le> nat limit" by simp
  moreover have "set ?ranked = {e \<in> set examples. score_of query e > 1 / 10}"
    by (rule ranked_set)
  moreover have "sorted_wrt (\<lambda>a b. score_of query a \<ge> score_of query b) ?ranked"
    by (rule ranked_sorted)
  moreover have "\<forall>v. filter (\<lambda>e. score_of query e = v) ?ranked =
      filter (\<lambda>e. score_of query e = v \<and> score_of query e > 1 / 10) examples"
    using ranked_stable by blast
  moreover have "\<forall>e. score_of query e =
      of_nat (card (set (py_split (lower query)) \<inter>
                    set (py_split (lower (natural_language e))))) /
      of_nat (max (length (py_split (lower query)))
                  (length (py_split (lower (natural_language e)))))"
    by (simp add: score_of_def similarity_score_def)
  ultimately show ?thesis by blast
qed

theorem similar_examples_ranked_witness:
  "\<exists>ranked.
     get_similar_examples
       [\<lparr>natural_language = ''show users'', sql = ''1'', category = ''c'', difficulty = ''d''\<rparr>,
        \<lparr>natural_language = ''Show me all users'', sql = ''2'', category = ''c'', difficulty = ''d''\<rparr>,
        \<lparr>natural_language = ''zzz'', sql = ''3'', category = ''c'', difficulty = ''d''\<rparr>]
       ''show me all users'' 1 = Inr (take (nat 1) ranked) \<and>
     sorted_wrt (\<lambda>a b. score_of ''show me all users'' a \<ge> score_of ''show me all users'' b)
       ranked"
proof -
  let ?exs = "[\<lparr>natural_language = ''show users'', sql = ''1'', category = ''c'', difficulty = ''d''\<rparr>,
        \<lparr>natural_language = ''Show me all users'', sql = ''2'', category = ''c'', difficulty = ''d''\<rparr>,
        \<lparr>natural_language = ''zzz'', sql = ''3'', category = ''c'', difficulty = ''d''\<rparr>]"
  have h1: "\<forall>ex \<in> set ?exs. py_split (lower (natural_language ex)) \<noteq> []"
    by code_simp
  have h2: "(0::int) \<le> 1" by simp
  from similar_examples_ranked[OF h1 h2, of "''show me all users''"]
  obtain ranked where
    "get_similar_examples ?exs ''show me all users'' 1 = Inr (take (nat 1) ranked)"
    "sorted_wrt (\<lambda>a b. score_of ''show me all users'' a \<ge> score_of ''show me all users'' b)
       ranked"
    by (elim exE conjE)
  then show ?thesis by (intro exI conjI)
qed

section \<open>Properties of the pattern matcher\<close>

lemma pattern_show_all_select:
  "pattern_show_all query_lower tables = Some r \<Longrightarrow> prefix ''SELECT'' r"
  by (auto simp: pattern_show_all_def split: if_splits option.splits)

lemma pattern_count_select:
  "pattern_count query_lower tables = Some r \<Longrightarrow> prefix ''SELECT'' r"
  by (auto simp: pattern_count_def split: if_splits option.splits)

lemma pattern_price_select:
  "pattern_price query query_lower tables = Some r \<Longrightarrow> prefix ''SELECT'' r"
  by (auto simp: pattern_price_def split: if_splits option.splits)

lemma pattern_find_select:
  "pattern_find query query_lower tables = Some r \<Longrightarrow> prefix ''SELECT'' r"
  by (auto simp: pattern_find_def split: if_splits option.splits dest: pattern_price_select)

lemma pattern_top_select:
  "pattern_top query_lower tables = Some r \<Longrightarrow> prefix ''SELECT'' r"
  by (auto simp: pattern_top_def split: if_splits option.splits)

lemma pattern_orders_select:
  "pattern_orders query_lower tables = Some r \<Longrightarrow> prefix ''SELECT'' r"
  by (auto simp: pattern_orders_def split: if_splits)

lemma pattern_products_select:
  "pattern_products query_lower tables = Some r \<Longrightarrow> prefix ''SELECT'' r"
  by (auto simp: pattern_products_def split: if_splits)

lemma fallback_select: "prefix ''SELECT'' (fallback tables)"
  by (simp add: fallback_def)

lemma pattern_match_sql_prefix: "prefix ''SELECT'' (pattern_match_sql query tables)"
  unfolding pattern_match_sql_def Let_def
  by (auto split: option.splits
      intro: pattern_show_all_select pattern_count_select pattern_find_select
        pattern_top_select pattern_orders_select pattern_products_select fallback_select)

lemma pattern_match_sql_no_tables: "pattern_match_sql query [] = ''SELECT 1''"
  by (simp add: pattern_match_sql_def pattern_show_all_def pattern_count_def pattern_find_def
      pattern_price_def pattern_top_def pattern_orders_def pattern_products_def fallback_def
      Let_def split: option.splits)

text \<open>
  Claim C5. For every query and every list of table names, \<open>pattern_match_sql\<close> returns a
  text that is not empty and begins with SELECT; with no table at all it returns the
  constant statement \<open>SELECT 1\<close>. The function is total: no rule of it can fail.
\<close>

theorem pattern_match_sql_select:
  "pattern_match_sql query tables \<noteq> [] \<and>
   prefix ''SELECT'' (pattern_match_sql query tables) \<and>
   pattern_match_sql query [] = ''SELECT 1''"
proof -
  have p: "prefix ''SELECT'' (pattern_match_sql query tables)"
    by (rule pattern_match_sql_prefix)
  then have "pattern_match_sql query tables \<noteq> []" by auto
  with p pattern_match_sql_no_tables show ?thesis by simp
qed

theorem pattern_match_sql_select_witness:
  "pattern_match_sql ''Show me all users'' [''users'', ''products''] = ''SELECT * FROM users'' \<and>
   prefix ''SELECT'' (pattern_match_sql ''Show me all users'' [''users'', ''products'']) \<and>
   pattern_match_sql ''Show me all users'' [] = ''SELECT 1''"
proof -
  have v: "pattern_match_sql ''Show me all users'' [''users'', ''products''] =
      ''SELECT * FROM users''"
    by code_simp
  from pattern_match_sql_select[of "''Show me all users''" "[''users'', ''products'']"] v
  show ?thesis by blast
qed

section \<open>Properties of the sanitizer\<close>

lemma str_in_ConsI: "str_in k s \<Longrightarrow> str_in k (c # s)"
  by (simp add: str_in_def sublist_Cons_right)

lemma str_in_pair: "str_in [a, b] (a # b # s)"
  by (simp add: str_in_def sublist_Cons_right)

lemma strip_line_comments_id:
  "\<not> str_in ''--'' s \<Longrightarrow> strip_line_comments s = s"
proof (induction s rule: strip_line_comments.induct)
  case 1
  then show ?case by simp
next
  case (2 c)
  then show ?case by simp
next
  case (3 c c' cs)
  from "3.prems" str_in_pair[of c c' cs] have n: "\<not> (c = CHR ''-'' \<and> c' = CHR ''-'')"
    by auto
  from "3.prems" have m: "\<not> str_in ''--'' (c' # cs)"
    using str_in_ConsI by blast
  from n have f: "(c = CHR ''-'' \<and> c' = CHR ''-'') = False" by blast
  have "strip_line_comments (c' # cs) = c' # cs"
    using "3.IH"(2) n m by blast
  then show ?case unfolding strip_line_comments.simps f by simp
qed

lemma strip_block_comments_id:
  "\<not> str_in ''/*'' s \<Longrightarrow> strip_block_comments s = s"
proof (induction s rule: strip_block_comments.induct)
  case 1
  then show ?case by simp
next
  case (2 c)
  then show ?case by simp
next
  case (3 c c' cs)
  from "3.prems" str_in_pair[of c c' cs] have n: "\<not> (c = CHR ''/'' \<and> c' = CHR ''*'')"
    by auto
  from "3.prems" have m: "\<not> str_in ''/*'' (c' # cs)"
    using str_in_ConsI by blast
  from n have f: "(c = CHR ''/'' \<and> c' = CHR ''*'') = False" by blast
  have "strip_block_comments (c' # cs) = c' # cs"
    using "3.IH"(3) n m by blast
  then show ?case unfolding strip_block_comments.simps f by simp
qed

lemma collapsed_Cons:
  "collapsed (c # t) =
     ((is_space c \<longrightarrow> c = CHR '' '' \<and> (t = [] \<or> \<not> is_space (hd t))) \<and> collapsed t)"
  by (cases t) auto

lemma collapse_whitespace_head:
  "s = [] \<or> \<not> is_space (hd s) \<Longrightarrow>
     collapse_whitespace s = [] \<or> \<not> is_space (hd (collapse_whitespace s))"
  by (cases s) auto

lemma dropWhile_head: "dropWhile P s = [] \<or> \<not> P (hd (dropWhile P s))"
  by (metis hd_dropWhile)

lemma collapsed_collapse_whitespace: "collapsed (collapse_whitespace s)"
proof (induction s rule: collapse_whitespace.induct)
  case 1
  then show ?case by simp
next
  case (2 c cs)
  show ?case
  proof (cases "is_space c")
    case True
    let ?t = "collapse_whitespace (dropWhile is_space cs)"
    from True "2.IH"(1) have "collapsed ?t" by simp
    moreover have "?t = [] \<or> \<not> is_space (hd ?t)"
      by (rule collapse_whitespace_head) (rule dropWhile_head)
    ultimately show ?thesis using True by (simp add: collapsed_Cons)
  next
    case False
    with "2.IH"(2) show ?thesis by (simp add: collapsed_Cons)
  qed
qed

lemma collapse_whitespace_id: "collapsed s \<Longrightarrow> collapse_whitespace s = s"
proof (induction s rule: collapse_whitespace.induct)
  case 1
  then show ?case by simp
next
  case (2 c cs)
  from "2.prems" have t: "collapsed cs" by (simp add: collapsed_Cons)
  show ?case
  proof (cases "is_space c")
    case True
    with "2.prems" have c: "c = CHR '' ''" and h: "cs = [] \<or> \<not> is_space (hd cs)"
      by (simp_all add: collapsed_Cons)
    from h have d: "dropWhile is_space cs = cs" by (cases cs) auto
    from "2.IH"(1)[OF True] t d have "collapse_whitespace cs = cs" by simp
    with True c d show ?thesis by simp
  next
    case False
    with "2.IH"(2) t show ?thesis by simp
  qed
qed

lemma collapsed_dropWhile: "collapsed s \<Longrightarrow> collapsed (dropWhile P s)"
  by (induction s) (auto simp: collapsed_Cons)

lemma takeWhile_head: "takeWhile P s \<noteq> [] \<Longrightarrow> hd (takeWhile P s) = hd s"
  by (cases s) (auto split: if_splits)

lemma collapsed_takeWhile: "collapsed s \<Longrightarrow> collapsed (takeWhile P s)"
proof (induction s)
  case Nil
  then show ?case by simp
next
  case (Cons c s)
  then have "collapsed (takeWhile P s)" by (simp add: collapsed_Cons)
  with Cons.prems show ?case
    using takeWhile_head[of P s] by (auto simp: collapsed_Cons)
qed

lemma rstrip_head: "rstrip s \<noteq> [] \<Longrightarrow> hd (rstrip s) = hd s"
  by (cases s) (auto split: if_splits)

lemma collapsed_rstrip: "collapsed s \<Longrightarrow> collapsed (rstrip s)"
proof (induction s)
  case Nil
  then show ?case by simp
next
  case (Cons c s)
  then have "collapsed (rstrip s)" by (simp add: collapsed_Cons)
  with Cons.prems show ?case
    using rstrip_head[of s] by (auto simp: collapsed_Cons)
qed

lemma collapsed_py_strip: "collapsed s \<Longrightarrow> collapsed (py_strip s)"
  by (simp add: py_strip_def collapsed_rstrip collapsed_dropWhile)

lemma rstrip_idem: "rstrip (rstrip s) = rstrip s"
  by (induction s) auto

lemma dropWhile_rstrip:
  "s = [] \<or> \<not> is_space (hd s) \<Longrightarrow> dropWhile is_space (rstrip s) = rstrip s"
  by (cases s) auto

lemma py_strip_idem: "py_strip (py_strip s) = py_strip s"
  unfolding py_strip_def
  by (simp add: dropWhile_rstrip[OF dropWhile_head] rstrip_idem)

lemma set_rstrip: "set (rstrip s) \<subseteq> set s"
  by (induction s) auto

lemma set_py_strip: "set (py_strip s) \<subseteq> set s"
  unfolding py_strip_def using set_rstrip set_dropWhileD by fastforce

lemma semicolon_not_in_cut:
  "CHR '';'' \<notin> set (py_strip (takeWhile (\<lambda>c. c \<noteq> CHR '';'') s))"
proof
  assume "CHR '';'' \<in> set (py_strip (takeWhile (\<lambda>c. c \<noteq> CHR '';'') s))"
  then have "CHR '';'' \<in> set (takeWhile (\<lambda>c. c \<noteq> CHR '';'') s)"
    using set_py_strip by blast
  then show False by (auto dest: set_takeWhileD)
qed

lemma sanitize_query_normal:
  "collapsed (sanitize_query s) \<and> py_strip (sanitize_query s) = sanitize_query s \<and>
   CHR '';'' \<notin> set (sanitize_query s)"
proof -
  let ?t = "py_strip (collapse_whitespace (strip_block_comments (strip_line_comments s)))"
  have c: "collapsed ?t"
    by (simp add: collapsed_py_strip collapsed_collapse_whitespace)
  show ?thesis
  proof (cases "CHR '';'' \<in> set ?t")
    case True
    then have "sanitize_query s = py_strip (takeWhile (\<lambda>c. c \<noteq> CHR '';'') ?t)"
      by (simp add: sanitize_query_def Let_def)
    then show ?thesis
      using c by (simp add: collapsed_py_strip collapsed_takeWhile py_strip_idem
          semicolon_not_in_cut)
  next
    case False
    then have "sanitize_query s = ?t"
      by (simp add: sanitize_query_def Let_def)
    then show ?thesis
      using c False by (simp add: py_strip_idem)
  qed
qed

text \<open>
  Claim C3, as stated: removing a block comment can join two hyphens into the marker of a
  line comment, which only a second pass removes.
\<close>

theorem sanitize_query_not_idempotent:
  "sanitize_query (sanitize_query ''-/**/-'') \<noteq> sanitize_query ''-/**/-''"
proof -
  have "sanitize_query ''-/**/-'' = ''--''" by code_simp
  moreover have "sanitize_query ''--'' = []" by code_simp
  ultimately show ?thesis by simp
qed

text \<open>
  Claim C3, amended. For every string whose sanitized form contains neither of the comment
  markers \<open>--\<close> and \<open>/*\<close>, sanitizing the sanitized form changes nothing.
\<close>

theorem sanitize_query_idempotent_without_markers:
  assumes "\<not> str_in ''--'' (sanitize_query s)" and "\<not> str_in ''/*'' (sanitize_query s)"
  shows "sanitize_query (sanitize_query s) = sanitize_query s"
proof -
  let ?t = "sanitize_query s"
  from sanitize_query_normal[of s]
  have n: "collapsed ?t" "py_strip ?t = ?t" "CHR '';'' \<notin> set ?t" by simp_all
  have "strip_block_comments (strip_line_comments ?t) = ?t"
    by (simp add: strip_line_comments_id[OF assms(1)] strip_block_comments_id[OF assms(2)])
  moreover have "py_strip (collapse_whitespace ?t) = ?t"
    by (simp add: collapse_whitespace_id[OF n(1)] n(2))
  ultimately show ?thesis
    using n(3) by (simp add: sanitize_query_def[of ?t] Let_def)
qed

theorem sanitize_query_idempotent_without_markers_witness:
  "sanitize_query ''a  /*x*/b ;c--d'' = ''a b'' \<and>
   sanitize_query (sanitize_query ''a  /*x*/b ;c--d'') =
     sanitize_query ''a  /*x*/b ;c--d''"
proof -
  have v: "sanitize_query ''a  /*x*/b ;c--d'' = ''a b''"
    by code_simp
  have h1: "\<not> str_in ''--'' (sanitize_query ''a  /*x*/b ;c--d'')"
    unfolding v by code_simp
  have h2: "\<not> str_in ''/*'' (sanitize_query ''a  /*x*/b ;c--d'')"
    unfolding v by code_simp
  from sanitize_query_idempotent_without_markers[OF h1 h2] v show ?thesis by simp
qed

end
